theory Spec2Isabelle
  imports Complex_Main
begin

section \<open>The Spot driver node and the nav goal listener\<close>

text \<open>
  The two ROS 2 nodes of the repository are glue around two external frameworks: the
  Boston Dynamics SDK (\<open>bosdyn\<close>) and \<open>rclpy\<close>/\<open>tf2\<close>. The embedding keeps the
  Python control flow of each method and makes everything the methods do to the outside
  visible:
  \<^item> every SDK call is appended to a trace (\<open>calls\<close>), whether it succeeds or raises;
  \<^item> whether a call raises is decided by a fault oracle (\<open>fault\<close>), a function of the
    number of calls made so far and of the call, so any pattern of failures over time
    is an input of the model;
  \<^item> a Python exception is the \<open>Inl\<close> of a sum type, and the state reached when it is
    raised is kept;
  \<^item> log lines, \<open>print\<close> output and published transforms are appended to lists.
  Python floats (velocities, clock readings) are modelled as \<open>real\<close>.
\<close>

subsection \<open>Exceptions\<close>

datatype exn =
    RpcError | ResponseError | LeaseError
  | AssertionError | AttributeError | KeyboardInterrupt | OtherException

text \<open>\<open>except (RpcError, ResponseError, LeaseError)\<close>\<close>

definition sdk_error :: "exn \<Rightarrow> bool" where
  "sdk_error e = (e = RpcError \<or> e = ResponseError \<or> e = LeaseError)"

text \<open>\<open>except Exception\<close>: everything but \<open>KeyboardInterrupt\<close>, a \<open>BaseException\<close>.\<close>

definition is_Exception :: "exn \<Rightarrow> bool" where
  "is_Exception e = (e \<noteq> KeyboardInterrupt)"

subsection \<open>Messages and telemetry\<close>

record twist =
  linear_x :: real
  linear_y :: real
  linear_z :: real
  angular_x :: real
  angular_y :: real
  angular_z :: real

record se3pose =
  position_x :: real
  position_y :: real
  position_z :: real
  rotation_x :: real
  rotation_y :: real
  rotation_z :: real
  rotation_w :: real

record transform_stamped =
  stamp :: real
  frame_id :: string
  child_frame_id :: string
  translation_x :: real
  translation_y :: real
  translation_z :: real
  quat_x :: real
  quat_y :: real
  quat_z :: real
  quat_w :: real

text \<open>
  A telemetry record of the state stream. \<open>get_a_tform_b\<close> is a function of the SDK:
  on the record's transform snapshot it returns the pose of the body in the odometry
  frame, or \<open>None\<close> when the snapshot does not relate the two frames. The record carries
  that result; \<open>seq_no\<close> tells records apart.
\<close>

record robot_state =
  seq_no :: nat
  odom_tform_body :: "se3pose option"

definition get_a_tform_b :: "robot_state \<Rightarrow> se3pose option" where
  "get_a_tform_b rs = odom_tform_body rs"

subsection \<open>SDK calls and the state\<close>

datatype client =
  RobotStateClient | RobotStateStreamingClient | RobotCommandClient | LeaseClient | EstopClient

datatype sdk_call =
    CreateStandardSdk
  | RegisterServiceClient
  | CreateRobot string
  | Authenticate
  | WaitForSync
  | IsEstopped
  | EnsureClient client
  | LeaseKeepAliveInit
  | EstopEndpointInit
  | ForceSimpleSetup
  | EstopKeepAliveInit
  | PowerOn
  | IsPoweredOn
  | BlockingStand
  | RobotCommand real real real real
  | PowerOff
  | EstopKeepAliveShutdown
  | LeaseKeepAliveShutdown

datatype level = DEBUG | INFO | WARN | ERROR | STDOUT

text \<open>A line of output: its level, its fixed text, and the exception an f-string prints.\<close>

type_synonym log_entry = "level \<times> string \<times> exn option"

text \<open>
  The fields of \<open>SpotROS2Driver\<close> (an \<open>Optional\<close> attribute is an \<open>option\<close>, an object
  created later is a flag), followed by the world outside the node: the trace of SDK
  calls, the robot's power, E-Stop and lease status, the fault oracle, and the output.
\<close>

record driver =
  hostname :: string
  latest_state :: "robot_state option"
  robot :: "unit option"
  lease_keep_alive :: "unit option"
  estop_keep_alive :: "unit option"
  robot_state_client :: "unit option"
  robot_state_streaming_client :: "unit option"
  command_client :: "unit option"
  tf_broadcaster :: bool
  cmd_vel_subscriber :: bool
  state_thread :: bool
  timer :: bool
  destroyed :: bool
  calls :: "sdk_call list"
  powered :: bool
  estopped :: bool
  lease_held :: bool
  estop_alive :: bool
  fault :: "nat \<Rightarrow> sdk_call \<Rightarrow> exn option"
  logged :: "log_entry list"
  published :: "transform_stamped list"

type_synonym 'a action = "driver \<Rightarrow> (exn + 'a) \<times> driver"

text \<open>Sequencing of statements: an exception skips what follows.\<close>

definition and_then :: "'a action \<Rightarrow> ('a \<Rightarrow> 'b action) \<Rightarrow> 'b action" where
  "and_then f g s = (case f s of (Inl e, s') \<Rightarrow> (Inl e, s') | (Inr x, s') \<Rightarrow> g x s')"

definition next_do :: "unit action \<Rightarrow> 'b action \<Rightarrow> 'b action" where
  "next_do f g = and_then f (\<lambda>_. g)"

definition done_ok :: "unit action" where
  "done_ok s = (Inr (), s)"

fun block :: "unit action list \<Rightarrow> unit action" where
  "block [] = done_ok"
| "block (f # fs) = next_do f (block fs)"

definition assign :: "(driver \<Rightarrow> driver) \<Rightarrow> unit action" where
  "assign upd s = (Inr (), upd s)"

definition emit :: "level \<Rightarrow> string \<Rightarrow> exn option \<Rightarrow> unit action" where
  "emit l txt e s = (Inr (), s\<lparr>logged := logged s @ [(l, txt, e)]\<rparr>)"

text \<open>What a call that returns normally does to the robot.\<close>

fun effect :: "sdk_call \<Rightarrow> driver \<Rightarrow> driver" where
  "effect LeaseKeepAliveInit s = s\<lparr>lease_held := True\<rparr>"
| "effect EstopKeepAliveInit s = s\<lparr>estop_alive := True\<rparr>"
| "effect PowerOn s = s\<lparr>powered := True\<rparr>"
| "effect PowerOff s = s\<lparr>powered := False\<rparr>"
| "effect EstopKeepAliveShutdown s = s\<lparr>estop_alive := False\<rparr>"
| "effect LeaseKeepAliveShutdown s = s\<lparr>lease_held := False\<rparr>"
| "effect _ s = s"

text \<open>One SDK call: recorded, then it raises or takes effect as the oracle says.\<close>

definition sdk :: "sdk_call \<Rightarrow> unit action" where
  "sdk c s =
     (let s' = s\<lparr>calls := calls s @ [c]\<rparr> in
      case fault s (length (calls s)) c of
        Some e \<Rightarrow> (Inl e, s')
      | None \<Rightarrow> (Inr (), effect c s'))"

definition is_estopped :: "bool action" where
  "is_estopped = and_then (sdk IsEstopped) (\<lambda>_ s. (Inr (estopped s), s))"

definition is_powered_on :: "bool action" where
  "is_powered_on = and_then (sdk IsPoweredOn) (\<lambda>_ s. (Inr (powered s), s))"

definition py_assert :: "bool \<Rightarrow> unit action" where
  "py_assert b s = (if b then (Inr (), s) else (Inl AssertionError, s))"

subsection \<open>\<open>SpotROS2Driver.__init__\<close>\<close>

text \<open>Lines 46 to 59: the attributes set before the \<open>try\<close>.\<close>

definition init_fields :: "string \<Rightarrow> driver \<Rightarrow> driver" where
  "init_fields hn s =
     s\<lparr>hostname := hn, latest_state := None, robot := None, lease_keep_alive := None,
       estop_keep_alive := None, robot_state_client := None,
       robot_state_streaming_client := None, command_client := None,
       tf_broadcaster := False, cmd_vel_subscriber := False, state_thread := False,
       timer := False, destroyed := False\<rparr>"

text \<open>
  Lines 62 to 104: the body of the \<open>try\<close>, one entry for each statement that calls the
  SDK, assigns an attribute or logs. \<open>time.sleep(2.0)\<close> of line 96 changes nothing here.
\<close>

definition init_try :: "string \<Rightarrow> unit action" where
  "init_try hn = block
     [sdk CreateStandardSdk,
      sdk RegisterServiceClient,
      sdk (CreateRobot hn),
      assign (\<lambda>s. s\<lparr>robot := Some ()\<rparr>),
      sdk Authenticate,
      sdk WaitForSync,
      and_then is_estopped (\<lambda>b. py_assert (\<not> b)),
      emit INFO ''Successfully authenticated and connected to the robot.'' None,
      sdk (EnsureClient RobotStateClient),
      assign (\<lambda>s. s\<lparr>robot_state_client := Some ()\<rparr>),
      sdk (EnsureClient RobotStateStreamingClient),
      assign (\<lambda>s. s\<lparr>robot_state_streaming_client := Some ()\<rparr>),
      sdk (EnsureClient RobotCommandClient),
      assign (\<lambda>s. s\<lparr>command_client := Some ()\<rparr>),
      sdk (EnsureClient LeaseClient),
      sdk (EnsureClient EstopClient),
      emit INFO ''Robot clients created.'' None,
      sdk LeaseKeepAliveInit,
      assign (\<lambda>s. s\<lparr>lease_keep_alive := Some ()\<rparr>),
      emit INFO ''Acquired lease.'' None,
      sdk EstopEndpointInit,
      sdk ForceSimpleSetup,
      sdk EstopKeepAliveInit,
      assign (\<lambda>s. s\<lparr>estop_keep_alive := Some ()\<rparr>),
      emit INFO ''Acquired E-Stop.'' None,
      sdk PowerOn,
      and_then is_powered_on py_assert,
      emit INFO ''Robot powered on.'' None,
      sdk BlockingStand,
      emit INFO ''Robot standing.'' None]"

text \<open>Lines 110 to 119: publishers, subscriber, reader thread and timer.\<close>

definition init_ros :: "driver \<Rightarrow> driver" where
  "init_ros s =
     s\<lparr>tf_broadcaster := True, cmd_vel_subscriber := True, state_thread := True,
       timer := True\<rparr>"

text \<open>
  The whole constructor. The handler of lines 106 to 108 logs an SDK error and raises it
  again; any other exception (a failed \<open>assert\<close>) passes through unlogged. Nothing is
  released in either case.
\<close>

definition init :: "string \<Rightarrow> unit action" where
  "init hn s =
     (case init_try hn (init_fields hn s) of
        (Inl e, s') \<Rightarrow>
          if sdk_error e
          then (Inl e, s'\<lparr>logged := logged s' @ [(ERROR, ''Failed to connect to the robot'', Some e)]\<rparr>)
          else (Inl e, s')
      | (Inr _, s') \<Rightarrow> (Inr (), init_ros s'))"

subsection \<open>The state streaming thread\<close>

text \<open>
  What the generator \<open>get_robot_state_stream()\<close> does at each \<open>next\<close>: it yields a
  record or raises (a failure of the call that opens the stream is a failure at the
  first \<open>next\<close>). The list is what the transport would deliver, in order; the end of
  the list is the end of the stream.
\<close>

datatype stream_item = Record robot_state | Failure exn

text \<open>
  Lines 121 to 129. The \<open>try\<close> encloses the whole \<open>for\<close> loop, so the handler runs
  after the loop has been left.
\<close>

fun state_streaming_thread :: "stream_item list \<Rightarrow> unit action" where
  "state_streaming_thread [] s = (Inr (), s)"
| "state_streaming_thread (Record r # rest) s =
     state_streaming_thread rest
       (s\<lparr>logged := logged s @ [(INFO, ''Received object of type'', None)],
          latest_state := Some r\<rparr>)"
| "state_streaming_thread (Failure e # rest) s =
     (if is_Exception e
      then (Inr (), s\<lparr>logged := logged s @ [(ERROR, ''Error in state streaming thread'', Some e)]\<rparr>)
      else (Inl e, s))"

subsection \<open>The periodic publisher\<close>

text \<open>Lines 144 to 159. A \<open>None\<close> pose has no attribute \<open>position\<close>.\<close>

definition publish_transform :: "se3pose option \<Rightarrow> real \<Rightarrow> unit action" where
  "publish_transform odom_tfrom_body now s =
     (case odom_tfrom_body of
        None \<Rightarrow> (Inl AttributeError, s)
      | Some p \<Rightarrow>
          (Inr (), s\<lparr>published := published s @
             [\<lparr>stamp = now, frame_id = ''odom'', child_frame_id = ''base_link'',
               translation_x = position_x p, translation_y = position_y p,
               translation_z = position_z p,
               quat_x = rotation_x p, quat_y = rotation_y p, quat_z = rotation_z p,
               quat_w = rotation_w p\<rparr>]\<rparr>))"

text \<open>Lines 131 to 139; \<open>now\<close> is the reading of the node's clock.\<close>

definition timer_callback :: "real \<Rightarrow> unit action" where
  "timer_callback now s =
     (case latest_state s of
        None \<Rightarrow> (Inr (), s)
      | Some robot_state \<Rightarrow> publish_transform (get_a_tform_b robot_state) now s)"

subsection \<open>The command dispatcher\<close>

text \<open>
  Lines 161 to 173; \<open>now\<close> is the reading of \<open>time.time()\<close>. The method reads neither
  the lease nor the power state. A \<open>None\<close> client has no attribute \<open>robot_command\<close>.
\<close>

definition cmd_vel_callback :: "twist \<Rightarrow> real \<Rightarrow> unit action" where
  "cmd_vel_callback msg now s =
     (let v_x = linear_x msg; v_y = linear_y msg; v_rot = angular_z msg;
          end_time = now + 0.5
      in case command_client s of
           None \<Rightarrow> (Inl AttributeError, s)
         | Some _ \<Rightarrow>
             (case sdk (RobotCommand v_x v_y v_rot end_time) s of
                (Inr _, s') \<Rightarrow>
                  (Inr (), s'\<lparr>logged := logged s' @ [(DEBUG, ''Sent velocity command'', None)]\<rparr>)
              | (Inl e, s') \<Rightarrow>
                  if e = RpcError \<or> e = ResponseError
                  then (Inr (), s'\<lparr>logged := logged s' @
                          [(ERROR, ''Failed to send velocity command'', Some e)]\<rparr>)
                  else (Inl e, s')))"

subsection \<open>Shutdown\<close>

text \<open>Lines 175 to 189. There is no \<open>try\<close>; no attribute is reset.\<close>

definition shutdown :: "unit action" where
  "shutdown = block
     [\<lambda>s. case robot s of
             None \<Rightarrow> (Inr (), s)
           | Some _ \<Rightarrow>
               and_then is_powered_on
                 (\<lambda>on. if on
                        then next_do (sdk PowerOff) (emit STDOUT ''Robot powered off.'' None)
                        else done_ok) s,
      \<lambda>s. case estop_keep_alive s of
             None \<Rightarrow> (Inr (), s)
           | Some _ \<Rightarrow>
               next_do (sdk EstopKeepAliveShutdown) (emit STDOUT ''E-Stop released.'' None) s,
      \<lambda>s. case lease_keep_alive s of
             None \<Rightarrow> (Inr (), s)
           | Some _ \<Rightarrow>
               next_do (sdk LeaseKeepAliveShutdown) (emit STDOUT ''Lease released.'' None) s]"

subsection \<open>\<open>main\<close>\<close>

text \<open>
  What \<open>rclpy.spin\<close> runs on the node until it is interrupted: the executor's callbacks,
  in the order they fire. An exception of a callback leaves \<open>spin\<close>.
\<close>

datatype event = TimerEvent real | CmdVelEvent twist real | Interrupt

fun spin :: "event list \<Rightarrow> unit action" where
  "spin [] s = (Inr (), s)"
| "spin (TimerEvent now # evs) s = next_do (timer_callback now) (spin evs) s"
| "spin (CmdVelEvent msg now # evs) s = next_do (cmd_vel_callback msg now) (spin evs) s"
| "spin (Interrupt # evs) s = (Inl KeyboardInterrupt, s)"

text \<open>The \<open>finally\<close> clause when \<open>spot_driver_node\<close> is bound.\<close>

definition finally_bound :: "unit action" where
  "finally_bound = next_do shutdown (assign (\<lambda>s. s\<lparr>destroyed := True\<rparr>))"

text \<open>
  Lines 192 to 210. \<open>ok\<close> is the answer of \<open>rclpy.ok()\<close>. When the constructor raises,
  the assignment to \<open>spot_driver_node\<close> never happens: the variable is still \<open>None\<close>, the
  handlers print nothing and the \<open>finally\<close> clause skips \<open>shutdown\<close>. An exception the
  two handlers name is swallowed; an exception raised inside \<open>finally\<close> replaces the one
  in flight.
\<close>

definition main :: "string \<Rightarrow> bool \<Rightarrow> event list \<Rightarrow> unit action" where
  "main hn ok evs s =
     (case init hn s of
        (Inl e, s1) \<Rightarrow>
          if e = KeyboardInterrupt \<or> sdk_error e then (Inr (), s1) else (Inl e, s1)
      | (Inr _, s1) \<Rightarrow>
          (case (if ok then spin evs s1 else (Inr (), s1)) of
             (Inr _, s2) \<Rightarrow> finally_bound s2
           | (Inl e, s2) \<Rightarrow>
               (let s3 =
                  (if e = KeyboardInterrupt
                   then s2\<lparr>logged := logged s2 @
                          [(STDOUT, ''Shutting down the Robot due to KeyboardInterrupt.'', None)]\<rparr>
                   else if sdk_error e
                   then s2\<lparr>logged := logged s2 @
                          [(STDOUT, ''Shutting down the Robot due to Spot-SDK error'', Some e)]\<rparr>
                   else s2)
                in case finally_bound s3 of
                     (Inl e', s4) \<Rightarrow> (Inl e', s4)
                   | (Inr _, s4) \<Rightarrow>
                       if e = KeyboardInterrupt \<or> sdk_error e then (Inr (), s4)
                       else (Inl e, s4))))"

subsection \<open>The nav goal listener\<close>

record pose_stamped =
  header_frame_id :: string
  pose :: se3pose

record move_goal =
  goal_x :: real
  goal_y :: real
  goal_yaw :: real

text \<open>
  The fields of \<open>NavGoalListener\<close> and what it touches: the transform buffer (the
  outcome of \<open>lookup_transform\<close> for a target and a source frame), whether the action
  server answers within the timeout, the log, and the goals sent to the action server.
\<close>

record listener =
  robot_frame :: string
  tf_buffer :: "string \<Rightarrow> string \<Rightarrow> exn + se3pose"
  server_available :: bool
  nav_logged :: "log_entry list"
  sent_goals :: "move_goal list"

text \<open>
  Lines 25 to 54 of \<open>nav_goal_listener.py\<close>. The library functions
  \<open>do_transform_pose\<close> and \<open>euler_from_quaternion\<close> are parameters; the first may raise.
\<close>

definition goal_callback ::
  "(se3pose \<Rightarrow> se3pose \<Rightarrow> exn + se3pose) \<Rightarrow> (real list \<Rightarrow> real \<times> real \<times> real) \<Rightarrow>
   pose_stamped \<Rightarrow> listener \<Rightarrow> (exn + unit) \<times> listener" where
  "goal_callback do_transform_pose euler_from_quaternion msg s =
     (let s1 = s\<lparr>nav_logged := nav_logged s @ [(INFO, ''Received goal in frame'', None)]\<rparr> in
      case (case tf_buffer s1 (robot_frame s1) (header_frame_id msg) of
              Inl e \<Rightarrow> Inl e
            | Inr transform \<Rightarrow> do_transform_pose (pose msg) transform) of
        Inl e \<Rightarrow>
          if is_Exception e
          then (Inr (), s1\<lparr>nav_logged := nav_logged s1 @ [(WARN, ''Transform error'', Some e)]\<rparr>)
          else (Inl e, s1)
      | Inr transformed_goal \<Rightarrow>
          if \<not> server_available s1
          then (Inr (), s1\<lparr>nav_logged := nav_logged s1 @
                  [(WARN, ''MoveRelativeXY action server not available!'', None)]\<rparr>)
          else
            (let q = [rotation_x transformed_goal, rotation_y transformed_goal,
                      rotation_z transformed_goal, rotation_w transformed_goal];
                 yaw = snd (snd (euler_from_quaternion q));
                 goal_msg = \<lparr>goal_x = position_x transformed_goal,
                             goal_y = position_y transformed_goal, goal_yaw = yaw\<rparr>
             in (Inr (), s1\<lparr>nav_logged := nav_logged s1 @ [(INFO, ''Transformed goal'', None)],
                            sent_goals := sent_goals s1 @ [goal_msg]\<rparr>)))"

section \<open>Vocabulary of the properties\<close>

text \<open>
  The SDK calls of a startup in which nothing fails, in the order of lines 63 to 103 of
  \<open>spot_minimal_driver.py\<close>: session and authentication, time-sync, the check for an
  external E-Stop, the service clients, the lease, the E-Stop endpoint, power-on, stand.
\<close>

definition startup_calls :: "string \<Rightarrow> sdk_call list" where
  "startup_calls hn =
     [CreateStandardSdk, RegisterServiceClient, CreateRobot hn, Authenticate, WaitForSync,
      IsEstopped,
      EnsureClient RobotStateClient, EnsureClient RobotStateStreamingClient,
      EnsureClient RobotCommandClient, EnsureClient LeaseClient, EnsureClient EstopClient,
      LeaseKeepAliveInit, EstopEndpointInit, ForceSimpleSetup, EstopKeepAliveInit,
      PowerOn, IsPoweredOn, BlockingStand]"

text \<open>
  The \<open>i\<close>-th call made from state \<open>s\<close> on, being \<open>c\<close>, returns normally and, when it is
  the E-Stop query, its answer passes the \<open>assert\<close> of line 73.
\<close>

definition call_ok :: "driver \<Rightarrow> nat \<Rightarrow> sdk_call \<Rightarrow> bool" where
  "call_ok s i c =
     (fault s (length (calls s) + i) c = None \<and> \<not> (c = IsEstopped \<and> estopped s))"

text \<open>The part of the state that no statement of the \<open>try\<close> of \<open>__init__\<close> writes.\<close>

definition same_frame :: "driver \<Rightarrow> driver \<Rightarrow> bool" where
  "same_frame s s' =
     (fault s' = fault s \<and> estopped s' = estopped s \<and> latest_state s' = latest_state s \<and>
      tf_broadcaster s' = tf_broadcaster s \<and> cmd_vel_subscriber s' = cmd_vel_subscriber s \<and>
      state_thread s' = state_thread s \<and> timer s' = timer s)"

text \<open>
  \<open>issues cs m\<close>: from any state, \<open>m\<close> makes the calls of \<open>cs\<close> in order and stops after
  the first that fails; every call before the last one made has succeeded, and when \<open>m\<close>
  returns normally all of \<open>cs\<close> has been made and has succeeded.
\<close>

definition issues :: "sdk_call list \<Rightarrow> 'a action \<Rightarrow> bool" where
  "issues cs m =
     (\<forall>s. same_frame s (snd (m s)) \<and>
        (\<exists>k\<le>length cs.
           calls (snd (m s)) = calls s @ take k cs \<and>
           (\<forall>i. Suc i < k \<longrightarrow> call_ok s i (cs ! i)) \<and>
           ((\<exists>x. fst (m s) = Inr x) \<longrightarrow> k = length cs \<and> (\<forall>i<k. call_ok s i (cs ! i)))))"

text \<open>The SDK calls made between two states.\<close>

definition issued :: "driver \<Rightarrow> driver \<Rightarrow> sdk_call list" where
  "issued s s' = drop (length (calls s)) (calls s')"

text \<open>
  The SDK calls \<open>shutdown\<close> makes from state \<open>s\<close> when none of them raises: the power
  query and, if the robot is powered, the power-off (when \<open>robot\<close> is set), the release
  of the E-Stop keep-alive (when set), the release of the lease keep-alive (when set).
\<close>

definition shutdown_calls :: "driver \<Rightarrow> sdk_call list" where
  "shutdown_calls s =
     (case robot s of None \<Rightarrow> [] | Some _ \<Rightarrow> IsPoweredOn # (if powered s then [PowerOff] else [])) @
     (case estop_keep_alive s of None \<Rightarrow> [] | Some _ \<Rightarrow> [EstopKeepAliveShutdown]) @
     (case lease_keep_alive s of None \<Rightarrow> [] | Some _ \<Rightarrow> [LeaseKeepAliveShutdown])"

text \<open>
  Making the calls of a list one after the other, each only once the previous one has
  returned normally: the outcome and the calls made. \<open>n\<close> is the number of calls made
  before.
\<close>

fun attempt :: "(nat \<Rightarrow> sdk_call \<Rightarrow> exn option) \<Rightarrow> nat \<Rightarrow> sdk_call list \<Rightarrow> (exn + unit) \<times> sdk_call list" where
  "attempt f n [] = (Inr (), [])"
| "attempt f n (c # cs) =
     (case f n c of
        Some e \<Rightarrow> (Inl e, [c])
      | None \<Rightarrow> (case attempt f (Suc n) cs of (r, made) \<Rightarrow> (r, c # made)))"

text \<open>
  What \<open>shutdown\<close> prints after a release call that returned normally (lines 180, 185
  and 189). The power query prints nothing.
\<close>

fun release_print :: "sdk_call \<Rightarrow> log_entry list" where
  "release_print PowerOff = [(STDOUT, ''Robot powered off.'', None)]"
| "release_print EstopKeepAliveShutdown = [(STDOUT, ''E-Stop released.'', None)]"
| "release_print LeaseKeepAliveShutdown = [(STDOUT, ''Lease released.'', None)]"
| "release_print _ = []"

text \<open>
  The calls of an attempt that returned normally: all the calls made, but for the last
  one when the attempt ended in an exception.
\<close>

definition completed :: "(exn + unit) \<times> sdk_call list \<Rightarrow> sdk_call list" where
  "completed a = (case fst a of Inr _ \<Rightarrow> snd a | Inl _ \<Rightarrow> butlast (snd a))"

text \<open>
  The states of a node whose startup succeeded: the state \<open>__init__\<close> returns in, and
  every state reached from it by a timer tick, a velocity intent, reads of the state
  stream, or a change of the robot's own status behind the node's back.
\<close>

inductive running :: "driver \<Rightarrow> bool" where
  started: "init hn s0 = (Inr (), s) \<Longrightarrow> running s"
| timer_fired: "running s \<Longrightarrow> running (snd (timer_callback now s))"
| cmd_vel_received: "running s \<Longrightarrow> running (snd (cmd_vel_callback msg now s))"
| stream_read: "running s \<Longrightarrow> running (snd (state_streaming_thread items s))"
| robot_changed:
    "running s \<Longrightarrow> running (s\<lparr>powered := p, lease_held := l, estop_alive := a, estopped := e\<rparr>)"

subsection \<open>Concrete states and messages\<close>

text \<open>A robot that is off, not E-Stopped, with no fault ever; no node built yet.\<close>

definition world0 :: driver where
  "world0 =
     \<lparr>hostname = [], latest_state = None, robot = None, lease_keep_alive = None,
      estop_keep_alive = None, robot_state_client = None,
      robot_state_streaming_client = None, command_client = None,
      tf_broadcaster = False, cmd_vel_subscriber = False, state_thread = False,
      timer = False, destroyed = False, calls = [], powered = False, estopped = False,
      lease_held = False, estop_alive = False, fault = (\<lambda>n c. None), logged = [],
      published = []\<rparr>"

text \<open>The node after a startup on that robot.\<close>

definition started0 :: driver where
  "started0 = snd (init ''192.168.80.3'' world0)"

definition intent0 :: twist where
  "intent0 = \<lparr>linear_x = 0.3, linear_y = 0, linear_z = 0, angular_x = 0, angular_y = 0,
               angular_z = 0.1\<rparr>"

text \<open>The started node after the robot has lost power and the lease.\<close>

definition unpowered0 :: driver where
  "unpowered0 = started0\<lparr>powered := False, lease_held := False\<rparr>"

text \<open>The started node of a robot whose power-off command fails.\<close>

definition power_off_fails :: driver where
  "power_off_fails = started0\<lparr>fault := (\<lambda>n c. if c = PowerOff then Some RpcError else None)\<rparr>"

text \<open>A robot on which the registration of the E-Stop endpoint fails.\<close>

definition estop_setup_fails :: driver where
  "estop_setup_fails =
     world0\<lparr>fault := (\<lambda>n c. if c = ForceSimpleSetup then Some RpcError else None)\<rparr>"

definition record0 :: robot_state where
  "record0 = \<lparr>seq_no = 0, odom_tform_body = None\<rparr>"

definition record1 :: robot_state where
  "record1 = \<lparr>seq_no = 1, odom_tform_body = None\<rparr>"

text \<open>A listener whose transform buffer knows no frame.\<close>

definition listener0 :: listener where
  "listener0 =
     \<lparr>robot_frame = ''base_link'', tf_buffer = (\<lambda>target source. Inl OtherException),
      server_available = True, nav_logged = [], sent_goals = []\<rparr>"

definition goal0 :: pose_stamped where
  "goal0 =
     \<lparr>header_frame_id = ''map'',
      pose = \<lparr>position_x = 1, position_y = 2, position_z = 0, rotation_x = 0, rotation_y = 0,
              rotation_z = 0, rotation_w = 1\<rparr>\<rparr>"

section \<open>Properties of the driver\<close>

subsection \<open>Basic facts about calls and sequencing\<close>

lemmas exec = init_def init_try_def init_fields_def init_ros_def next_do_def and_then_def
  done_ok_def assign_def emit_def is_estopped_def is_powered_on_def py_assert_def sdk_def
  Let_def sdk_error_def

lemmas run = exec shutdown_def main_def finally_bound_def cmd_vel_callback_def
  timer_callback_def publish_transform_def world0_def startup_calls_def

lemma effect_calls [simp]: "calls (effect c s) = calls s"
  by (cases c) simp_all

lemma effect_frame [simp]:
  "fault (effect c s) = fault s" "estopped (effect c s) = estopped s"
  "latest_state (effect c s) = latest_state s" "tf_broadcaster (effect c s) = tf_broadcaster s"
  "cmd_vel_subscriber (effect c s) = cmd_vel_subscriber s"
  "state_thread (effect c s) = state_thread s" "timer (effect c s) = timer s"
  by (cases c; simp)+

lemma effect_node [simp]:
  "command_client (effect c s) = command_client s"
  "robot (effect c s) = robot s"
  "lease_keep_alive (effect c s) = lease_keep_alive s"
  "estop_keep_alive (effect c s) = estop_keep_alive s"
  "logged (effect c s) = logged s"
  "published (effect c s) = published s"
  by (cases c; simp)+

lemma same_frame_refl [simp]: "same_frame s s"
  by (simp add: same_frame_def)

lemma same_frame_trans: "same_frame s s1 \<Longrightarrow> same_frame s1 s2 \<Longrightarrow> same_frame s s2"
  by (simp add: same_frame_def)

lemma issuesI:
  assumes "\<And>s. same_frame s (snd (m s))"
    and "\<And>s. \<exists>k\<le>length cs.
           calls (snd (m s)) = calls s @ take k cs \<and>
           (\<forall>i. Suc i < k \<longrightarrow> call_ok s i (cs ! i)) \<and>
           ((\<exists>x. fst (m s) = Inr x) \<longrightarrow> k = length cs \<and> (\<forall>i<k. call_ok s i (cs ! i)))"
  shows "issues cs m"
  unfolding issues_def using assms by blast

lemma issues_sdk:
  assumes "c \<noteq> IsEstopped"
  shows "issues [c] (sdk c)"
proof (rule issuesI)
  fix s
  show "same_frame s (snd (sdk c s))"
    by (simp add: sdk_def Let_def same_frame_def split: option.splits)
  show "\<exists>k\<le>length [c]. calls (snd (sdk c s)) = calls s @ take k [c] \<and>
           (\<forall>i. Suc i < k \<longrightarrow> call_ok s i ([c] ! i)) \<and>
           ((\<exists>x. fst (sdk c s) = Inr x) \<longrightarrow> k = length [c] \<and> (\<forall>i<k. call_ok s i ([c] ! i)))"
    using assms
    by (intro exI [of _ 1]) (simp add: sdk_def Let_def call_ok_def split: option.splits)
qed

lemma issues_estop_check: "issues [IsEstopped] (and_then is_estopped (\<lambda>b. py_assert (\<not> b)))"
proof (rule issuesI)
  fix s
  let ?m = "and_then is_estopped (\<lambda>b. py_assert (\<not> b))"
  show "same_frame s (snd (?m s))"
    by (simp add: is_estopped_def and_then_def py_assert_def sdk_def Let_def same_frame_def
        split: option.splits)
  show "\<exists>k\<le>length [IsEstopped]. calls (snd (?m s)) = calls s @ take k [IsEstopped] \<and>
           (\<forall>i. Suc i < k \<longrightarrow> call_ok s i ([IsEstopped] ! i)) \<and>
           ((\<exists>x. fst (?m s) = Inr x) \<longrightarrow>
              k = length [IsEstopped] \<and> (\<forall>i<k. call_ok s i ([IsEstopped] ! i)))"
    by (intro exI [of _ 1])
      (simp add: is_estopped_def and_then_def py_assert_def sdk_def Let_def call_ok_def
        split: option.splits)
qed

lemma issues_power_check: "issues [IsPoweredOn] (and_then is_powered_on py_assert)"
proof (rule issuesI)
  fix s
  let ?m = "and_then is_powered_on py_assert"
  show "same_frame s (snd (?m s))"
    by (simp add: is_powered_on_def and_then_def py_assert_def sdk_def Let_def same_frame_def
        split: option.splits)
  show "\<exists>k\<le>length [IsPoweredOn]. calls (snd (?m s)) = calls s @ take k [IsPoweredOn] \<and>
           (\<forall>i. Suc i < k \<longrightarrow> call_ok s i ([IsPoweredOn] ! i)) \<and>
           ((\<exists>x. fst (?m s) = Inr x) \<longrightarrow>
              k = length [IsPoweredOn] \<and> (\<forall>i<k. call_ok s i ([IsPoweredOn] ! i)))"
    by (intro exI [of _ 1])
      (simp add: is_powered_on_def and_then_def py_assert_def sdk_def Let_def call_ok_def
        split: option.splits)
qed

lemma issues_silent:
  assumes "\<And>s. calls (snd (m s)) = calls s" "\<And>s. same_frame s (snd (m s))"
  shows "issues [] m"
  using assms by (intro issuesI) simp_all

lemma issues_assign:
  "(\<And>s. calls (upd s) = calls s) \<Longrightarrow> (\<And>s. same_frame s (upd s)) \<Longrightarrow> issues [] (assign upd)"
  by (rule issues_silent) (simp_all add: assign_def)

lemma issues_emit: "issues [] (emit l txt e)"
  by (rule issues_silent) (simp_all add: emit_def same_frame_def)

lemma issues_done_ok: "issues [] done_ok"
  by (rule issues_silent) (simp_all add: done_ok_def)

lemma issues_and_then:
  assumes f: "issues cs1 f" and g: "\<And>x. issues cs2 (g x)"
  shows "issues (cs1 @ cs2) (and_then f g)"
proof (rule issuesI)
  fix s
  obtain r s1 where fs: "f s = (r, s1)" by (cases "f s")
  from f [unfolded issues_def, rule_format, of s] fs
  obtain k1 where k1: "same_frame s s1" "k1 \<le> length cs1" "calls s1 = calls s @ take k1 cs1"
    "\<forall>i. Suc i < k1 \<longrightarrow> call_ok s i (cs1 ! i)"
    "(\<exists>x. r = Inr x) \<longrightarrow> k1 = length cs1 \<and> (\<forall>i<k1. call_ok s i (cs1 ! i))"
    by auto
  have frame: "same_frame s (snd (and_then f g s))"
  proof (cases r)
    case (Inl e)
    with k1(1) show ?thesis by (simp add: and_then_def fs)
  next
    case (Inr x)
    from g [of x, unfolded issues_def, rule_format, of s1]
    have "same_frame s1 (snd (g x s1))" by blast
    with k1(1) Inr show ?thesis
      by (simp add: and_then_def fs) (rule same_frame_trans)
  qed
  show "same_frame s (snd (and_then f g s))" by (rule frame)
  show "\<exists>k\<le>length (cs1 @ cs2).
           calls (snd (and_then f g s)) = calls s @ take k (cs1 @ cs2) \<and>
           (\<forall>i. Suc i < k \<longrightarrow> call_ok s i ((cs1 @ cs2) ! i)) \<and>
           ((\<exists>x. fst (and_then f g s) = Inr x) \<longrightarrow>
              k = length (cs1 @ cs2) \<and> (\<forall>i<k. call_ok s i ((cs1 @ cs2) ! i)))"
  proof (cases r)
    case (Inl e)
    then have res: "and_then f g s = (Inl e, s1)" by (simp add: and_then_def fs)
    have "\<forall>i. Suc i < k1 \<longrightarrow> call_ok s i ((cs1 @ cs2) ! i)"
      using k1(2,4) by (simp add: nth_append)
    with k1 res show ?thesis
      by (intro exI [of _ k1]) simp
  next
    case (Inr x)
    then have res: "and_then f g s = g x s1" by (simp add: and_then_def fs)
    from Inr k1 have full: "k1 = length cs1" "calls s1 = calls s @ cs1"
      "\<forall>i<length cs1. call_ok s i (cs1 ! i)" by auto
    from g [of x, unfolded issues_def, rule_format, of s1]
    obtain k2 where k2: "k2 \<le> length cs2"
      "calls (snd (g x s1)) = calls s1 @ take k2 cs2"
      "\<forall>i. Suc i < k2 \<longrightarrow> call_ok s1 i (cs2 ! i)"
      "(\<exists>y. fst (g x s1) = Inr y) \<longrightarrow> k2 = length cs2 \<and> (\<forall>i<k2. call_ok s1 i (cs2 ! i))"
      by auto
    have shift: "call_ok s1 j c = call_ok s (length cs1 + j) c" for j c
      using k1(1) by (simp add: call_ok_def same_frame_def full(2) add.assoc)
    have at: "call_ok s i ((cs1 @ cs2) ! i)"
      if "i < length cs1 \<or> (\<exists>j. i = length cs1 + j \<and> call_ok s1 j (cs2 ! j))" for i
      using that full(3) by (auto simp: nth_append shift)
    have a: "\<forall>i. Suc i < length cs1 + k2 \<longrightarrow> call_ok s i ((cs1 @ cs2) ! i)"
    proof (intro allI impI)
      fix i assume i: "Suc i < length cs1 + k2"
      show "call_ok s i ((cs1 @ cs2) ! i)"
      proof (cases "i < length cs1")
        case True
        then show ?thesis by (simp add: at)
      next
        case False
        then obtain j where j: "i = length cs1 + j" by (metis le_Suc_ex not_less)
        with i have "Suc j < k2" by simp
        with k2(3) have "call_ok s1 j (cs2 ! j)" by blast
        with j show ?thesis by (intro at) blast
      qed
    qed
    have b: "(\<exists>y. fst (g x s1) = Inr y) \<longrightarrow> length cs1 + k2 = length (cs1 @ cs2) \<and>
        (\<forall>i<length cs1 + k2. call_ok s i ((cs1 @ cs2) ! i))"
    proof (intro impI conjI allI)
      assume ok: "\<exists>y. fst (g x s1) = Inr y"
      with k2(4) show "length cs1 + k2 = length (cs1 @ cs2)" by simp
      fix i assume i: "i < length cs1 + k2"
      show "call_ok s i ((cs1 @ cs2) ! i)"
      proof (cases "i < length cs1")
        case True
        then show ?thesis by (simp add: at)
      next
        case False
        then obtain j where j: "i = length cs1 + j" by (metis le_Suc_ex not_less)
        with i have "j < k2" by simp
        with k2(4) ok have "call_ok s1 j (cs2 ! j)" by blast
        with j show ?thesis by (intro at) blast
      qed
    qed
    have c: "calls (snd (g x s1)) = calls s @ take (length cs1 + k2) (cs1 @ cs2)"
      by (simp add: k2(2) full(2))
    from a b c k2(1) show ?thesis
      unfolding res by (intro exI [of _ "length cs1 + k2"]) simp
  qed
qed

lemma issues_block_sdk:
  "c \<noteq> IsEstopped \<Longrightarrow> issues cs (block fs) \<Longrightarrow> issues (c # cs) (block (sdk c # fs))"
  using issues_and_then [of "[c]" "sdk c" cs "\<lambda>_. block fs"]
  by (simp add: next_do_def issues_sdk)

lemma issues_block_estop_check:
  "issues cs (block fs) \<Longrightarrow>
   issues (IsEstopped # cs) (block (and_then is_estopped (\<lambda>b. py_assert (\<not> b)) # fs))"
  using issues_and_then [of "[IsEstopped]" "and_then is_estopped (\<lambda>b. py_assert (\<not> b))" cs "\<lambda>_. block fs"]
  by (simp add: next_do_def issues_estop_check)

lemma issues_block_power_check:
  "issues cs (block fs) \<Longrightarrow>
   issues (IsPoweredOn # cs) (block (and_then is_powered_on py_assert # fs))"
  using issues_and_then [of "[IsPoweredOn]" "and_then is_powered_on py_assert" cs "\<lambda>_. block fs"]
  by (simp add: next_do_def issues_power_check)

lemma issues_block_assign:
  "(\<And>s. calls (upd s) = calls s) \<Longrightarrow> (\<And>s. same_frame s (upd s)) \<Longrightarrow>
   issues cs (block fs) \<Longrightarrow> issues cs (block (assign upd # fs))"
  using issues_and_then [of "[]" "assign upd" cs "\<lambda>_. block fs"]
  by (simp add: next_do_def issues_assign)

lemma issues_block_emit:
  "issues cs (block fs) \<Longrightarrow> issues cs (block (emit l txt e # fs))"
  using issues_and_then [of "[]" "emit l txt e" cs "\<lambda>_. block fs"]
  by (simp add: next_do_def issues_emit)

lemma issues_block_Nil: "issues [] (block [])"
  by (simp add: issues_done_ok)

lemma block_keeps:
  assumes "\<forall>f\<in>set fs. \<forall>s. P s \<longrightarrow> P (snd (f s))" and "P s"
  shows "P (snd (block fs s))"
  using assms
proof (induction fs arbitrary: s)
  case Nil
  then show ?case by (simp add: done_ok_def)
next
  case (Cons f fs)
  obtain r s1 where fs: "f s = (r, s1)" by (cases "f s")
  from Cons.prems fs have s1: "P s1" by fastforce
  show ?case
  proof (cases r)
    case (Inl e)
    with s1 fs show ?thesis by (simp add: next_do_def and_then_def)
  next
    case (Inr u)
    from Cons.prems(1) have "\<forall>f\<in>set fs. \<forall>s. P s \<longrightarrow> P (snd (f s))" by simp
    then have "P (snd (block fs s1))" using s1 by (rule Cons.IH)
    with Inr fs show ?thesis by (simp add: next_do_def and_then_def)
  qed
qed

lemma block_success_establishes:
  assumes "n < length fs"
    and "\<And>s. fst ((fs ! n) s) = Inr () \<Longrightarrow> P (snd ((fs ! n) s))"
    and "\<forall>f\<in>set (drop (Suc n) fs). \<forall>s. P s \<longrightarrow> P (snd (f s))"
    and "fst (block fs s) = Inr ()"
  shows "P (snd (block fs s))"
  using assms
proof (induction fs arbitrary: n s)
  case Nil
  then show ?case by simp
next
  case (Cons f fs)
  obtain r s1 where fs: "f s = (r, s1)" by (cases "f s")
  with Cons.prems(4) have r: "r = Inr ()"
    by (cases r) (simp_all add: next_do_def and_then_def)
  with fs have run: "block (f # fs) s = block fs s1"
    by (simp add: next_do_def and_then_def)
  show ?case
  proof (cases n)
    case 0
    with Cons.prems(2) [of s] fs r have p1: "P s1" by simp
    from 0 Cons.prems(3) have k: "\<forall>g\<in>set fs. \<forall>t. P t \<longrightarrow> P (snd (g t))" by simp
    have "P (snd (block fs s1))" by (rule block_keeps [OF k p1])
    with run show ?thesis by simp
  next
    case (Suc m)
    have "P (snd (block fs s1))"
    proof (rule Cons.IH [of m])
      from Suc Cons.prems(1) show "m < length fs" by simp
      from Suc Cons.prems(2) show "\<And>s. fst ((fs ! m) s) = Inr () \<Longrightarrow> P (snd ((fs ! m) s))" by simp
      from Suc Cons.prems(3) show "\<forall>g\<in>set (drop (Suc m) fs). \<forall>t. P t \<longrightarrow> P (snd (g t))" by simp
      from Cons.prems(4) run show "fst (block fs s1) = Inr ()" by simp
    qed
    with run show ?thesis by simp
  qed
qed

subsection \<open>Startup\<close>

lemma init_try_issues: "issues (startup_calls hn) (init_try hn)"
  unfolding init_try_def startup_calls_def
  by (intro issues_block_sdk issues_block_estop_check issues_block_power_check
      issues_block_assign issues_block_emit issues_block_Nil)
    (simp_all add: same_frame_def)

lemma init_try_command_client:
  assumes "fst (init_try hn s) = Inr ()"
  shows "command_client (snd (init_try hn s)) = Some ()"
  unfolding init_try_def
proof (rule block_success_establishes [where n = 13])
  show "fst (block
     [sdk CreateStandardSdk,
      sdk RegisterServiceClient,
      sdk (CreateRobot hn),
      assign (\<lambda>s. s\<lparr>robot := Some ()\<rparr>),
      sdk Authenticate,
      sdk WaitForSync,
      and_then is_estopped (\<lambda>b. py_assert (\<not> b)),
      emit INFO ''Successfully authenticated and connected to the robot.'' None,
      sdk (EnsureClient RobotStateClient),
      assign (\<lambda>s. s\<lparr>robot_state_client := Some ()\<rparr>),
      sdk (EnsureClient RobotStateStreamingClient),
      assign (\<lambda>s. s\<lparr>robot_state_streaming_client := Some ()\<rparr>),
      sdk (EnsureClient RobotCommandClient),
      assign (\<lambda>s. s\<lparr>command_client := Some ()\<rparr>),
      sdk (EnsureClient LeaseClient),
      sdk (EnsureClient EstopClient),
      emit INFO ''Robot clients created.'' None,
      sdk LeaseKeepAliveInit,
      assign (\<lambda>s. s\<lparr>lease_keep_alive := Some ()\<rparr>),
      emit INFO ''Acquired lease.'' None,
      sdk EstopEndpointInit,
      sdk ForceSimpleSetup,
      sdk EstopKeepAliveInit,
      assign (\<lambda>s. s\<lparr>estop_keep_alive := Some ()\<rparr>),
      emit INFO ''Acquired E-Stop.'' None,
      sdk PowerOn,
      and_then is_powered_on py_assert,
      emit INFO ''Robot powered on.'' None,
      sdk BlockingStand,
      emit INFO ''Robot standing.'' None] s) = Inr ()"
    using assms by (simp add: init_try_def)
qed (simp_all add: assign_def emit_def sdk_def Let_def and_then_def is_powered_on_def py_assert_def
    split: option.splits)

lemma init_command_client:
  assumes "init hn s0 = (Inr (), s)"
  shows "command_client s = Some ()"
proof -
  obtain r s1 where t: "init_try hn (init_fields hn s0) = (r, s1)"
    by (cases "init_try hn (init_fields hn s0)")
  with assms have r: "r = Inr ()" and s: "s = init_ros s1"
    by (auto simp: init_def split: sum.splits if_splits)
  from init_try_command_client [of hn "init_fields hn s0"] t r
  have "command_client s1 = Some ()" by simp
  with s show ?thesis by (simp add: init_ros_def)
qed

lemma init_fields_frame:
  "calls (init_fields hn s) = calls s" "fault (init_fields hn s) = fault s"
  "estopped (init_fields hn s) = estopped s" "latest_state (init_fields hn s) = None"
  "cmd_vel_subscriber (init_fields hn s) = False" "state_thread (init_fields hn s) = False"
  "timer (init_fields hn s) = False"
  by (simp_all add: init_fields_def)

lemma call_ok_init_fields: "call_ok (init_fields hn s) i c = call_ok s i c"
  by (simp add: call_ok_def init_fields_frame)

lemma init_cases:
  obtains (raised) e s1 where "init_try hn (init_fields hn s) = (Inl e, s1)"
      "fst (init hn s) = Inl e" "calls (snd (init hn s)) = calls s1"
      "latest_state (snd (init hn s)) = latest_state s1"
      "cmd_vel_subscriber (snd (init hn s)) = cmd_vel_subscriber s1"
      "state_thread (snd (init hn s)) = state_thread s1" "timer (snd (init hn s)) = timer s1"
    | (returned) s1 where "init_try hn (init_fields hn s) = (Inr (), s1)"
      "fst (init hn s) = Inr ()" "calls (snd (init hn s)) = calls s1"
      "latest_state (snd (init hn s)) = latest_state s1"
      "cmd_vel_subscriber (snd (init hn s))" "state_thread (snd (init hn s))"
      "timer (snd (init hn s))"
proof -
  obtain r s1 where t: "init_try hn (init_fields hn s) = (r, s1)"
    by (cases "init_try hn (init_fields hn s)")
  show thesis
  proof (cases r)
    case (Inl e)
    show thesis
      by (rule raised [of e s1]) (simp_all add: init_def t Inl)
  next
    case (Inr u)
    show thesis
      by (rule returned [of s1]) (simp_all add: init_def t Inr init_ros_def)
  qed
qed

lemma init_latest_state: "latest_state (snd (init hn s)) = None"
proof -
  from init_try_issues [of hn, unfolded issues_def, rule_format, of "init_fields hn s"]
  have "latest_state (snd (init_try hn (init_fields hn s))) = None"
    by (simp add: same_frame_def init_fields_frame)
  then show ?thesis
    by (cases rule: init_cases [of hn s]) simp_all
qed

lemma init_world0: "fst (init ''192.168.80.3'' world0) = Inr ()"
  by (simp add: exec world0_def)

lemma started0_eval:
  "started0 = world0\<lparr>hostname := ''192.168.80.3'', robot := Some (), lease_keep_alive := Some (),
     estop_keep_alive := Some (), robot_state_client := Some (),
     robot_state_streaming_client := Some (), command_client := Some (),
     tf_broadcaster := True, cmd_vel_subscriber := True, state_thread := True, timer := True,
     calls := startup_calls ''192.168.80.3'', powered := True, lease_held := True,
     estop_alive := True,
     logged := [(INFO, ''Successfully authenticated and connected to the robot.'', None),
                (INFO, ''Robot clients created.'', None), (INFO, ''Acquired lease.'', None),
                (INFO, ''Acquired E-Stop.'', None), (INFO, ''Robot powered on.'', None),
                (INFO, ''Robot standing.'', None)]\<rparr>"
  by (simp add: started0_def run)

lemma running_command_client: "running s \<Longrightarrow> command_client s = Some ()"
proof (induction rule: running.induct)
  case (started hn s0 s)
  then show ?case by (rule init_command_client)
next
  case (timer_fired s now)
  then show ?case
    by (simp add: timer_callback_def publish_transform_def split: option.splits)
next
  case (cmd_vel_received s msg now)
  then show ?case
    by (simp add: cmd_vel_callback_def sdk_def Let_def split: option.splits)
next
  case (stream_read s items)
  have "command_client (snd (state_streaming_thread items t)) = command_client t" for t
    by (induction items t rule: state_streaming_thread.induct) simp_all
  with stream_read show ?case by simp
next
  case (robot_changed s p l a e)
  then show ?case by simp
qed

text \<open>
  Claim C7. Startup makes its SDK calls in the fixed order of \<open>startup_calls\<close> (session
  and authentication, time-sync, external E-Stop check, lease, E-Stop endpoint, power-on,
  stand): the calls made are an initial segment of that list, every call before the last
  one made has succeeded, and a startup that returns has made them all. The command
  subscription, the reader thread and the timer exist exactly when startup returned
  normally.
\<close>

theorem startup_order:
  "\<exists>k\<le>length (startup_calls hn).
     calls (snd (init hn s)) = calls s @ take k (startup_calls hn) \<and>
     (\<forall>i. Suc i < k \<longrightarrow> call_ok s i (startup_calls hn ! i)) \<and>
     (fst (init hn s) = Inr () \<longrightarrow>
        k = length (startup_calls hn) \<and> (\<forall>i<k. call_ok s i (startup_calls hn ! i))) \<and>
     cmd_vel_subscriber (snd (init hn s)) = (fst (init hn s) = Inr ()) \<and>
     state_thread (snd (init hn s)) = (fst (init hn s) = Inr ()) \<and>
     timer (snd (init hn s)) = (fst (init hn s) = Inr ())"
proof -
  let ?s0 = "init_fields hn s"
  let ?cs = "startup_calls hn"
  from init_try_issues [of hn, unfolded issues_def, rule_format, of ?s0]
  obtain k where frame: "same_frame ?s0 (snd (init_try hn ?s0))"
    and k: "k \<le> length ?cs" "calls (snd (init_try hn ?s0)) = calls s @ take k ?cs"
      "\<forall>i. Suc i < k \<longrightarrow> call_ok s i (?cs ! i)"
      "(\<exists>x. fst (init_try hn ?s0) = Inr x) \<longrightarrow> k = length ?cs \<and> (\<forall>i<k. call_ok s i (?cs ! i))"
    by (auto simp: call_ok_init_fields init_fields_frame)
  from frame have flags: "cmd_vel_subscriber (snd (init_try hn ?s0)) = False"
    "state_thread (snd (init_try hn ?s0)) = False" "timer (snd (init_try hn ?s0)) = False"
    by (simp_all add: same_frame_def init_fields_frame)
  show ?thesis
  proof (cases rule: init_cases [of hn s])
    case (raised e s1)
    with k flags show ?thesis
      by (intro exI [of _ k]) simp
  next
    case (returned s1)
    with k show ?thesis
      by (intro exI [of _ k]) simp
  qed
qed

theorem startup_order_witness:
  "fst (init ''192.168.80.3'' world0) = Inr () \<and>
   calls (snd (init ''192.168.80.3'' world0)) = startup_calls ''192.168.80.3'' \<and>
   state_thread (snd (init ''192.168.80.3'' world0)) \<and>
   cmd_vel_subscriber (snd (init ''192.168.80.3'' world0)) \<and>
   timer (snd (init ''192.168.80.3'' world0))"
proof -
  let ?h = "''192.168.80.3''"
  have ok: "fst (init ?h world0) = Inr ()" by (rule init_world0)
  from startup_order [of ?h world0]
  obtain k where k: "calls (snd (init ?h world0)) = calls world0 @ take k (startup_calls ?h)"
    "fst (init ?h world0) = Inr () \<longrightarrow> k = length (startup_calls ?h)"
    "cmd_vel_subscriber (snd (init ?h world0)) = (fst (init ?h world0) = Inr ())"
    "state_thread (snd (init ?h world0)) = (fst (init ?h world0) = Inr ())"
    "timer (snd (init ?h world0)) = (fst (init ?h world0) = Inr ())"
    by blast
  from k(2) ok have "k = length (startup_calls ?h)" by blast
  with k(1) have "calls (snd (init ?h world0)) = startup_calls ?h"
    by (simp add: world0_def)
  with ok k(3,4,5) show ?thesis by simp
qed

text \<open>
  Claim C1. A failing startup releases what it acquired before the failure. The code does
  not: \<open>__init__\<close> logs and raises again, and \<open>main\<close> skips \<open>shutdown\<close> because
  \<open>spot_driver_node\<close> was never bound. When the registration of the E-Stop endpoint
  raises \<open>RpcError\<close>, the lease keep-alive acquired three calls earlier is never shut
  down, the robot still holds the lease, and \<open>main\<close> returns normally.
\<close>

theorem startup_failure_leaks_lease:
  "main ''192.168.80.3'' True evs estop_setup_fails =
     (Inr (), estop_setup_fails\<lparr>hostname := ''192.168.80.3'', robot := Some (),
        lease_keep_alive := Some (), robot_state_client := Some (),
        robot_state_streaming_client := Some (), command_client := Some (),
        calls := take 14 (startup_calls ''192.168.80.3''), lease_held := True,
        logged := [(INFO, ''Successfully authenticated and connected to the robot.'', None),
                   (INFO, ''Robot clients created.'', None), (INFO, ''Acquired lease.'', None),
                   (ERROR, ''Failed to connect to the robot'', Some RpcError)]\<rparr>) \<and>
   LeaseKeepAliveShutdown \<notin> set (calls (snd (main ''192.168.80.3'' True evs estop_setup_fails)))"
  by (simp add: estop_setup_fails_def run)

subsection \<open>The command dispatcher\<close>

text \<open>
  Claim C6. For every velocity intent received by a started node, exactly one motion
  command is passed to the SDK, with the intent's forward, lateral and rotational rates
  unchanged and an end time half a second after the time of issue.
\<close>

theorem cmd_vel_one_command:
  assumes "running s"
  shows "calls (snd (cmd_vel_callback msg now s)) =
         calls s @ [RobotCommand (linear_x msg) (linear_y msg) (angular_z msg) (now + 0.5)]"
  using running_command_client [OF assms]
  by (simp add: cmd_vel_callback_def sdk_def Let_def split: option.splits)

theorem cmd_vel_one_command_witness:
  "running started0 \<and>
   calls (snd (cmd_vel_callback intent0 100 started0)) =
     calls started0 @ [RobotCommand 0.3 0 0.1 100.5]"
proof -
  have "init ''192.168.80.3'' world0 = (Inr (), started0)"
    using init_world0 by (simp add: started0_def prod_eq_iff)
  then have r: "running started0" by (rule running.started)
  from cmd_vel_one_command [OF r, of intent0 100] r show ?thesis
    by (simp add: intent0_def)
qed

text \<open>
  Claim C2, as stated: a velocity intent is forwarded only while the lease is held and the
  robot is powered, and is dropped with a warning otherwise. It fails: with the robot
  unpowered and the lease lost, the intent is forwarded all the same and nothing but a
  debug line is logged.
\<close>

theorem cmd_vel_unchecked_counterexample:
  "\<not> (lease_held unpowered0 \<and> powered unpowered0) \<and>
   cmd_vel_callback intent0 100 unpowered0 =
     (Inr (), unpowered0\<lparr>calls := calls unpowered0 @ [RobotCommand 0.3 0 0.1 100.5],
                         logged := logged unpowered0 @ [(DEBUG, ''Sent velocity command'', None)]\<rparr>)"
  by (simp add: unpowered0_def started0_eval intent0_def run)

text \<open>
  Claim C2, amended. The dispatcher reads neither the lease nor the power state: for
  every velocity intent of a started node it forwards one motion command to the SDK,
  whatever the two are. When the SDK rejects the command with \<open>RpcError\<close> or
  \<open>ResponseError\<close>, the callback logs an error and returns normally.
\<close>

theorem cmd_vel_forwards_unchecked:
  "running s \<longrightarrow>
     issued s (snd (cmd_vel_callback msg now (s\<lparr>powered := p, lease_held := l\<rparr>))) =
       [RobotCommand (linear_x msg) (linear_y msg) (angular_z msg) (now + 0.5)] \<and>
     (\<forall>e. fault s (length (calls s))
            (RobotCommand (linear_x msg) (linear_y msg) (angular_z msg) (now + 0.5)) = Some e \<and>
          (e = RpcError \<or> e = ResponseError) \<longrightarrow>
          fst (cmd_vel_callback msg now s) = Inr () \<and>
          logged (snd (cmd_vel_callback msg now s)) =
            logged s @ [(ERROR, ''Failed to send velocity command'', Some e)])"
proof
  assume "running s"
  then have cc: "command_client s = Some ()" by (rule running_command_client)
  then show "issued s (snd (cmd_vel_callback msg now (s\<lparr>powered := p, lease_held := l\<rparr>))) =
       [RobotCommand (linear_x msg) (linear_y msg) (angular_z msg) (now + 0.5)] \<and>
     (\<forall>e. fault s (length (calls s))
            (RobotCommand (linear_x msg) (linear_y msg) (angular_z msg) (now + 0.5)) = Some e \<and>
          (e = RpcError \<or> e = ResponseError) \<longrightarrow>
          fst (cmd_vel_callback msg now s) = Inr () \<and>
          logged (snd (cmd_vel_callback msg now s)) =
            logged s @ [(ERROR, ''Failed to send velocity command'', Some e)])"
    by (auto simp: cmd_vel_callback_def sdk_def Let_def issued_def split: option.splits)
qed

theorem cmd_vel_forwards_unchecked_witness:
  "running started0 \<and>
   issued started0 (snd (cmd_vel_callback intent0 100 (started0\<lparr>powered := False, lease_held := False\<rparr>))) =
     [RobotCommand 0.3 0 0.1 100.5]"
proof -
  have "init ''192.168.80.3'' world0 = (Inr (), started0)"
    using init_world0 by (simp add: started0_def prod_eq_iff)
  then have r: "running started0" by (rule running.started)
  from cmd_vel_forwards_unchecked [of started0 intent0 100 False False] r
  show ?thesis by (simp add: intent0_def)
qed

subsection \<open>Shutdown\<close>

lemma shutdown_attempt:
  "fst (shutdown s) = fst (attempt (fault s) (length (calls s)) (shutdown_calls s)) \<and>
   calls (snd (shutdown s)) = calls s @ snd (attempt (fault s) (length (calls s)) (shutdown_calls s))"
  by (simp add: shutdown_def shutdown_calls_def next_do_def and_then_def done_ok_def emit_def
      is_powered_on_def sdk_def Let_def split: option.splits)

lemma shutdown_logged:
  "logged (snd (shutdown s)) =
   logged s @ concat (map release_print
     (completed (attempt (fault s) (length (calls s)) (shutdown_calls s))))"
  by (simp add: shutdown_def shutdown_calls_def next_do_def and_then_def done_ok_def emit_def
      is_powered_on_def sdk_def Let_def completed_def split: option.splits)

lemma attempt_subset: "set (snd (attempt f n cs)) \<subseteq> set cs"
proof (induction cs arbitrary: n)
  case Nil
  show ?case by simp
next
  case (Cons c cs)
  show ?case
  proof (cases "f n c")
    case None
    obtain r made where a: "attempt f (Suc n) cs = (r, made)"
      by (cases "attempt f (Suc n) cs")
    with Cons.IH [of "Suc n"] have "set made \<subseteq> set cs" by simp
    with None a show ?thesis by auto
  next
    case (Some e)
    then show ?thesis by simp
  qed
qed

lemma shutdown_node:
  "robot (snd (shutdown s)) = robot s" "estop_keep_alive (snd (shutdown s)) = estop_keep_alive s"
  "lease_keep_alive (snd (shutdown s)) = lease_keep_alive s"
  by (simp_all add: shutdown_def next_do_def and_then_def done_ok_def emit_def
      is_powered_on_def sdk_def Let_def split: option.splits)

lemma shutdown_powered:
  "fst (shutdown s) = Inr () \<Longrightarrow> robot s \<noteq> None \<Longrightarrow> \<not> powered (snd (shutdown s))"
  by (simp add: shutdown_def next_do_def and_then_def done_ok_def emit_def
      is_powered_on_def sdk_def Let_def split: option.splits if_splits)

lemma shutdown_calls_again:
  assumes "fst (shutdown s) = Inr ()"
  shows "shutdown_calls (snd (shutdown s)) = filter (\<lambda>c. c \<noteq> PowerOff) (shutdown_calls s)"
proof (cases "robot s")
  case None
  then show ?thesis
    by (simp add: shutdown_calls_def shutdown_node split: option.splits)
next
  case (Some u)
  with shutdown_powered [OF assms] have "\<not> powered (snd (shutdown s))" by simp
  with Some show ?thesis
    by (simp add: shutdown_calls_def shutdown_node split: option.splits)
qed

text \<open>
  Claim C3, as stated: a failing power-off is logged, does not propagate and does not
  prevent the release of the E-Stop and of the lease. It fails: when the power-off
  raises, \<open>shutdown\<close> raises the same exception after two calls, and neither keep-alive
  is shut down.
\<close>

theorem shutdown_power_off_counterexample:
  "shutdown power_off_fails =
     (Inl RpcError, power_off_fails\<lparr>calls := calls power_off_fails @ [IsPoweredOn, PowerOff]\<rparr>) \<and>
   EstopKeepAliveShutdown \<notin> set (calls (snd (shutdown power_off_fails))) \<and>
   LeaseKeepAliveShutdown \<notin> set (calls (snd (shutdown power_off_fails)))"
  by (simp add: power_off_fails_def started0_eval run)

text \<open>
  Claim C3, amended. \<open>shutdown\<close> makes its release attempts in the order power-off (if
  \<open>robot\<close> is set and the robot is powered), E-Stop keep-alive (if set), lease keep-alive
  (if set), each only once the previous call has returned normally: it stops at the
  first call that raises, and that exception is its outcome. When no call raises, every
  applicable attempt is made. The exception is not logged: all that \<open>shutdown\<close> writes
  is the line printed after each release that returned normally.
\<close>

theorem shutdown_stops_at_first_failure:
  "fst (shutdown s) = fst (attempt (fault s) (length (calls s)) (shutdown_calls s)) \<and>
   issued s (snd (shutdown s)) = snd (attempt (fault s) (length (calls s)) (shutdown_calls s)) \<and>
   logged (snd (shutdown s)) =
     logged s @ concat (map release_print
       (completed (attempt (fault s) (length (calls s)) (shutdown_calls s))))"
  using shutdown_attempt [of s] shutdown_logged [of s] by (simp add: issued_def)

text \<open>
  Claim C5, as stated: a second \<open>shutdown\<close> after a successful one releases nothing a
  second time. It fails: no attribute is cleared, so the second call shuts both
  keep-alives down again.
\<close>

theorem shutdown_twice_counterexample:
  "fst (shutdown started0) = Inr () \<and>
   issued started0 (snd (shutdown started0)) =
     [IsPoweredOn, PowerOff, EstopKeepAliveShutdown, LeaseKeepAliveShutdown] \<and>
   fst (shutdown (snd (shutdown started0))) = Inr () \<and>
   issued (snd (shutdown started0)) (snd (shutdown (snd (shutdown started0)))) =
     [IsPoweredOn, EstopKeepAliveShutdown, LeaseKeepAliveShutdown]"
  by (simp add: issued_def started0_eval run)

text \<open>
  Claim C5, amended. \<open>shutdown\<close> skips every resource whose attribute is unset: with
  \<open>robot\<close>, \<open>estop_keep_alive\<close> and \<open>lease_keep_alive\<close> all unset it makes no SDK call
  and returns normally, and an unset attribute's release call is never made. A second
  call after a successful one does not power off again, but it repeats every other
  call of the first: the power query and the shutdown of each keep-alive that is set.
\<close>

theorem shutdown_skips_unset_and_repeats:
  "(robot s = None \<and> estop_keep_alive s = None \<and> lease_keep_alive s = None \<longrightarrow>
      shutdown s = (Inr (), s)) \<and>
   (robot s = None \<longrightarrow> PowerOff \<notin> set (issued s (snd (shutdown s)))) \<and>
   (estop_keep_alive s = None \<longrightarrow> EstopKeepAliveShutdown \<notin> set (issued s (snd (shutdown s)))) \<and>
   (lease_keep_alive s = None \<longrightarrow> LeaseKeepAliveShutdown \<notin> set (issued s (snd (shutdown s)))) \<and>
   (fst (shutdown s) = Inr () \<longrightarrow>
      fst (shutdown (snd (shutdown s))) =
        fst (attempt (fault s) (length (calls (snd (shutdown s))))
               (filter (\<lambda>c. c \<noteq> PowerOff) (shutdown_calls s))) \<and>
      issued (snd (shutdown s)) (snd (shutdown (snd (shutdown s)))) =
        snd (attempt (fault s) (length (calls (snd (shutdown s))))
               (filter (\<lambda>c. c \<noteq> PowerOff) (shutdown_calls s))))"
proof (intro conjI impI)
  assume "robot s = None \<and> estop_keep_alive s = None \<and> lease_keep_alive s = None"
  then show "shutdown s = (Inr (), s)"
    by (simp add: shutdown_def next_do_def and_then_def done_ok_def)
next
  have sub: "set (issued s (snd (shutdown s))) \<subseteq> set (shutdown_calls s)"
    using shutdown_attempt [of s] attempt_subset [of "fault s" "length (calls s)" "shutdown_calls s"]
    by (simp add: issued_def)
  {
    assume "robot s = None"
    then have "PowerOff \<notin> set (shutdown_calls s)"
      by (simp add: shutdown_calls_def split: option.splits)
    with sub show "PowerOff \<notin> set (issued s (snd (shutdown s)))" by blast
  }
  {
    assume "estop_keep_alive s = None"
    then have "EstopKeepAliveShutdown \<notin> set (shutdown_calls s)"
      by (simp add: shutdown_calls_def split: option.splits)
    with sub show "EstopKeepAliveShutdown \<notin> set (issued s (snd (shutdown s)))" by blast
  }
  {
    assume "lease_keep_alive s = None"
    then have "LeaseKeepAliveShutdown \<notin> set (shutdown_calls s)"
      by (simp add: shutdown_calls_def split: option.splits)
    with sub show "LeaseKeepAliveShutdown \<notin> set (issued s (snd (shutdown s)))" by blast
  }
next
  assume ok: "fst (shutdown s) = Inr ()"
  have f: "fault (snd (shutdown s)) = fault s"
    by (simp add: shutdown_def next_do_def and_then_def done_ok_def emit_def
        is_powered_on_def sdk_def Let_def split: option.splits)
  from shutdown_attempt [of "snd (shutdown s)"] shutdown_calls_again [OF ok] f
  show "fst (shutdown (snd (shutdown s))) =
        fst (attempt (fault s) (length (calls (snd (shutdown s))))
               (filter (\<lambda>c. c \<noteq> PowerOff) (shutdown_calls s)))"
    and "issued (snd (shutdown s)) (snd (shutdown (snd (shutdown s)))) =
        snd (attempt (fault s) (length (calls (snd (shutdown s))))
               (filter (\<lambda>c. c \<noteq> PowerOff) (shutdown_calls s)))"
    by (simp_all add: issued_def)
qed

theorem shutdown_skips_unset_and_repeats_witness:
  "shutdown world0 = (Inr (), world0) \<and>
   fst (shutdown started0) = Inr () \<and>
   issued (snd (shutdown started0)) (snd (shutdown (snd (shutdown started0)))) =
     [IsPoweredOn, EstopKeepAliveShutdown, LeaseKeepAliveShutdown]"
proof -
  have unset: "robot world0 = None \<and> estop_keep_alive world0 = None \<and> lease_keep_alive world0 = None"
    by (simp add: world0_def)
  have ok: "fst (shutdown started0) = Inr ()"
    by (simp add: started0_eval run)
  have cs: "filter (\<lambda>c. c \<noteq> PowerOff) (shutdown_calls started0) =
      [IsPoweredOn, EstopKeepAliveShutdown, LeaseKeepAliveShutdown]"
    by (simp add: shutdown_calls_def started0_eval world0_def)
  have f: "fault started0 = (\<lambda>n c. None)"
    by (simp add: started0_eval world0_def)
  from shutdown_skips_unset_and_repeats [of world0] unset
  have a: "shutdown world0 = (Inr (), world0)" by blast
  from shutdown_skips_unset_and_repeats [of started0] ok
  have "issued (snd (shutdown started0)) (snd (shutdown (snd (shutdown started0)))) =
        snd (attempt (fault started0) (length (calls (snd (shutdown started0))))
               (filter (\<lambda>c. c \<noteq> PowerOff) (shutdown_calls started0)))"
    by blast
  then have "issued (snd (shutdown started0)) (snd (shutdown (snd (shutdown started0)))) =
     [IsPoweredOn, EstopKeepAliveShutdown, LeaseKeepAliveShutdown]"
    by (simp add: cs f)
  with a ok show ?thesis by simp
qed

subsection \<open>The state cache\<close>

lemma stream_records:
  "state_streaming_thread (map Record rs @ items) s =
   state_streaming_thread items (snd (state_streaming_thread (map Record rs) s))"
  by (induction rs arbitrary: s) simp_all

text \<open>
  Claim C8. The cache has last-write-wins semantics: after the reader has written any
  records and then \<open>r0\<close> and \<open>r1\<close>, the cache holds \<open>r1\<close> alone, and the periodic
  publisher's next read works on \<open>r1\<close>.
\<close>

theorem latest_state_last_write_wins:
  "latest_state (snd (state_streaming_thread (map Record (rs @ [r0, r1])) s)) = Some r1 \<and>
   timer_callback now (snd (state_streaming_thread (map Record (rs @ [r0, r1])) s)) =
     publish_transform (get_a_tform_b r1) now
       (snd (state_streaming_thread (map Record (rs @ [r0, r1])) s))"
proof -
  have "state_streaming_thread (map Record (rs @ [r0, r1])) s =
        state_streaming_thread [Record r0, Record r1] (snd (state_streaming_thread (map Record rs) s))"
    using stream_records [of rs "[Record r0, Record r1]" s] by simp
  then have "latest_state (snd (state_streaming_thread (map Record (rs @ [r0, r1])) s)) = Some r1"
    by simp
  then show ?thesis by (simp add: timer_callback_def)
qed

text \<open>
  Claim C4, as stated: after a read failure the loop goes on reading. It fails: the
  \<open>try\<close> encloses the loop, so the first failure ends the thread and the record after
  it is never read.
\<close>

theorem stream_failure_counterexample:
  "state_streaming_thread [Record record0, Failure RpcError, Record record1] world0 =
     (Inr (), world0\<lparr>latest_state := Some record0,
                     logged := [(INFO, ''Received object of type'', None),
                                (ERROR, ''Error in state streaming thread'', Some RpcError)]\<rparr>) \<and>
   latest_state (snd (state_streaming_thread [Record record0, Failure RpcError, Record record1] world0))
     \<noteq> Some record1"
  by (simp add: is_Exception_def record0_def record1_def world0_def)

text \<open>
  Claim C4, amended. Any exception raised while reading the stream, transient or not, is
  logged once as an error and ends the reader: the records read before it stay
  written, and nothing after it is read.
\<close>

theorem stream_failure_ends_reader:
  "is_Exception e \<longrightarrow>
   state_streaming_thread (map Record rs @ Failure e # rest) s =
     (Inr (), (snd (state_streaming_thread (map Record rs) s))
        \<lparr>logged := logged (snd (state_streaming_thread (map Record rs) s)) @
           [(ERROR, ''Error in state streaming thread'', Some e)]\<rparr>)"
  by (simp add: stream_records)

theorem stream_failure_ends_reader_witness:
  "is_Exception RpcError \<and>
   state_streaming_thread [Record record0, Failure RpcError, Record record1] world0 =
   state_streaming_thread [Record record0, Failure RpcError] world0"
proof -
  have e: "is_Exception RpcError" by (simp add: is_Exception_def)
  from stream_failure_ends_reader [of RpcError "[record0]" "[Record record1]" world0]
    stream_failure_ends_reader [of RpcError "[record0]" "[]" world0] e
  show ?thesis by simp
qed

text \<open>
  Claim C10. The cache is empty when \<open>__init__\<close> is over, and while it is empty the timer
  callback publishes nothing, changes nothing and returns normally.
\<close>

theorem timer_before_first_record:
  "latest_state (snd (init hn s0)) = None \<and>
   (latest_state s = None \<longrightarrow> timer_callback now s = (Inr (), s))"
  by (simp add: init_latest_state timer_callback_def)

theorem timer_before_first_record_witness:
  "latest_state started0 = None \<and>
   timer_callback 0 started0 = (Inr (), started0) \<and>
   published (snd (timer_callback 0 started0)) = []"
proof -
  from timer_before_first_record [of "''192.168.80.3''" world0 started0 0]
  have "latest_state started0 = None" "timer_callback 0 started0 = (Inr (), started0)"
    by (simp_all add: started0_def)
  moreover have "published started0 = []"
    by (simp add: started0_eval world0_def)
  ultimately show ?thesis by simp
qed

section \<open>Properties of the nav goal listener\<close>

text \<open>
  Claim C9. When the lookup of the transform from the goal's frame to the robot frame
  raises, the callback logs a warning and drops the goal: it returns normally and sends
  no action goal.
\<close>

theorem goal_dropped_without_transform:
  "tf_buffer s (robot_frame s) (header_frame_id msg) = Inl e \<and> is_Exception e \<longrightarrow>
   goal_callback do_transform_pose euler_from_quaternion msg s =
     (Inr (), s\<lparr>nav_logged := nav_logged s @
        [(INFO, ''Received goal in frame'', None), (WARN, ''Transform error'', Some e)]\<rparr>) \<and>
   sent_goals (snd (goal_callback do_transform_pose euler_from_quaternion msg s)) = sent_goals s"
  by (simp add: goal_callback_def Let_def)

theorem goal_dropped_without_transform_witness:
  "tf_buffer listener0 (robot_frame listener0) (header_frame_id goal0) = Inl OtherException \<and>
   is_Exception OtherException \<and>
   fst (goal_callback (\<lambda>p t. Inr p) (\<lambda>q. (0, 0, 0)) goal0 listener0) = Inr () \<and>
   sent_goals (snd (goal_callback (\<lambda>p t. Inr p) (\<lambda>q. (0, 0, 0)) goal0 listener0)) = [] \<and>
   nav_logged (snd (goal_callback (\<lambda>p t. Inr p) (\<lambda>q. (0, 0, 0)) goal0 listener0)) =
     [(INFO, ''Received goal in frame'', None), (WARN, ''Transform error'', Some OtherException)]"
proof -
  have h: "tf_buffer listener0 (robot_frame listener0) (header_frame_id goal0) = Inl OtherException \<and>
      is_Exception OtherException"
    by (simp add: listener0_def is_Exception_def)
  from goal_dropped_without_transform
    [of listener0 goal0 OtherException "\<lambda>p t. Inr p" "\<lambda>q. (0, 0, 0)"] h
  have "goal_callback (\<lambda>p t. Inr p) (\<lambda>q. (0, 0, 0)) goal0 listener0 =
     (Inr (), listener0\<lparr>nav_logged := nav_logged listener0 @
        [(INFO, ''Received goal in frame'', None), (WARN, ''Transform error'', Some OtherException)]\<rparr>)"
    by blast
  with h show ?thesis by (simp add: listener0_def)
qed

end
